theory Spec2Isabelle
  imports Complex_Main
begin

section \<open>Battery cell manager: the cell ledger of \<open>app.py\<close>\<close>

text \<open>
  The script keeps its cells in \<open>st.session_state.cells_data\<close>, a dictionary from a
  cell identifier to a record dictionary with the seven fields \<open>voltage\<close>, \<open>current\<close>,
  \<open>temp\<close>, \<open>capacity\<close>, \<open>min_voltage\<close>, \<open>max_voltage\<close> and \<open>type\<close>. Three parts of
  the script work on it: the ``Generate Cells'' handler of the sidebar, the current input
  loop of the second tab, and the ``Quick Stats'' aggregates.

  Numbers: the script's floats are modelled as exact rationals, so \<open>3.2\<close> is
  \<open>32 / 10\<close> and a product is the exact product. Record dictionaries are objects that
  the script shares between two outer dictionaries, so they live in a store and the
  outer dictionaries hold their addresses.
\<close>

subsection \<open>Python built-ins used by the script\<close>

datatype error = KeyError | ZeroDivisionError

text \<open>\<open>round(x, ndigits)\<close>: the nearest multiple of \<open>10 ^ -ndigits\<close>, a tie going to the
  even neighbour.\<close>

definition round_half_even :: "rat \<Rightarrow> int" where
  "round_half_even x =
     (let f = \<lfloor>x\<rfloor>; d = x - of_int f
      in if d < 1 / 2 then f else if 1 / 2 < d then f + 1 else if even f then f else f + 1)"

definition py_round :: "rat \<Rightarrow> nat \<Rightarrow> rat" where
  "py_round x ndigits = of_int (round_half_even (x * 10 ^ ndigits)) / 10 ^ ndigits"

text \<open>\<open>sum(...)\<close> starts from zero and adds from the left.\<close>

definition py_sum :: "'a::monoid_add list \<Rightarrow> 'a" where
  "py_sum xs = foldl (+) 0 xs"

text \<open>\<open>str(n)\<close> of a non-negative integer, as the f-string of the cell identifier
  formats the index.\<close>

definition digit :: "nat \<Rightarrow> char" where
  "digit n = ''0123456789'' ! n"

fun str_nat :: "nat \<Rightarrow> string" where
  "str_nat n = (if n < 10 then [digit n] else str_nat (n div 10) @ [digit (n mod 10)])"

declare str_nat.simps [simp del]

text \<open>\<open>s.lower()\<close> and \<open>s.upper()\<close> on the ASCII letters; every other character is kept.\<close>

definition lower_char :: "char \<Rightarrow> char" where
  "lower_char c =
     (case map_of (zip ''ABCDEFGHIJKLMNOPQRSTUVWXYZ'' ''abcdefghijklmnopqrstuvwxyz'') c of
        Some l \<Rightarrow> l
      | None \<Rightarrow> c)"

definition upper_char :: "char \<Rightarrow> char" where
  "upper_char c =
     (case map_of (zip ''abcdefghijklmnopqrstuvwxyz'' ''ABCDEFGHIJKLMNOPQRSTUVWXYZ'') c of
        Some u \<Rightarrow> u
      | None \<Rightarrow> c)"

definition lower :: "string \<Rightarrow> string" where
  "lower s = map lower_char s"

definition upper :: "string \<Rightarrow> string" where
  "upper s = map upper_char s"

text \<open>A dictionary keeps its keys in insertion order: \<open>d[k] = v\<close> overwrites the value of
  a key that is present, in place, and appends a new key at the end; \<open>d[k]\<close> raises
  \<open>KeyError\<close> on a missing key.\<close>

type_synonym ('k, 'v) dict = "('k \<times> 'v) list"

fun dict_set :: "('k, 'v) dict \<Rightarrow> 'k \<Rightarrow> 'v \<Rightarrow> ('k, 'v) dict" where
  "dict_set [] k v = [(k, v)]"
| "dict_set ((k', v') # kvs) k v =
     (if k' = k then (k, v) # kvs else (k', v') # dict_set kvs k v)"

definition dict_get :: "('k, 'v) dict \<Rightarrow> 'k \<Rightarrow> error + 'v" where
  "dict_get d k = (case map_of d k of None \<Rightarrow> Inl KeyError | Some v \<Rightarrow> Inr v)"

subsection \<open>Cell records, the store and the session state\<close>

record cell =
  voltage :: rat
  current :: rat
  temp :: rat
  capacity :: rat
  min_voltage :: rat
  max_voltage :: rat
  type :: string

type_synonym addr = nat

text \<open>The store gives the record object at each address; \<open>fresh\<close> is the next unused
  address, so a dictionary display \<open>{...}\<close> allocates at \<open>fresh\<close>. The session state holds
  \<open>cells_data\<close> (identifier to record object) and \<open>cell_types\<close>.\<close>

record state =
  heap :: "addr \<Rightarrow> cell"
  fresh :: addr
  cells_data :: "(string, addr) dict"
  cell_types :: "string list"

definition no_cell :: cell where
  "no_cell = \<lparr>voltage = 0, current = 0, temp = 0, capacity = 0, min_voltage = 0,
     max_voltage = 0, type = []\<rparr>"

text \<open>Lines 65-68: a new session starts with an empty \<open>cells_data\<close> and no cell types.\<close>

definition init_state :: state where
  "init_state = \<lparr>heap = (\<lambda>_. no_cell), fresh = 0, cells_data = [], cell_types = []\<rparr>"

text \<open>What a reader of a dictionary \<open>d\<close> sees: each identifier with the contents of its
  record, in the dictionary's order (\<open>d.items()\<close> and \<open>d.values()\<close>).\<close>

definition items :: "(string, addr) dict \<Rightarrow> (addr \<Rightarrow> cell) \<Rightarrow> (string \<times> cell) list" where
  "items d h = map (\<lambda>(k, a). (k, h a)) d"

definition ledger :: "state \<Rightarrow> (string \<times> cell) list" where
  "ledger s = items (cells_data s) (heap s)"

definition cells :: "state \<Rightarrow> cell list" where
  "cells s = map snd (ledger s)"

subsection \<open>The sidebar and the ``Generate Cells'' handler (lines 83-117)\<close>

text \<open>Lines 83-91: one select box per cell; each selection is stored in lower case.\<close>

definition select_cell_types :: "string list \<Rightarrow> string list" where
  "select_cell_types selections = map lower selections"

definition cell_key :: "nat \<Rightarrow> string \<Rightarrow> string" where
  "cell_key idx cell_type = ''cell_'' @ str_nat idx @ ''_'' @ cell_type"

text \<open>Lines 100-115, the record of one cell. \<open>drawn\<close> is the value that
  \<open>random.uniform(25, 40)\<close> returned for it.\<close>

definition new_cell :: "rat \<Rightarrow> string \<Rightarrow> cell" where
  "new_cell drawn cell_type =
     (let v = (if cell_type = ''lfp'' then 32 / 10 else 36 / 10);
          min_v = (if cell_type = ''lfp'' then 28 / 10 else 32 / 10);
          max_v = (if cell_type = ''lfp'' then 36 / 10 else 4);
          c = 0;
          t = py_round drawn 1;
          cap = py_round (v * c) 2
      in \<lparr>voltage = v, current = c, temp = t, capacity = cap, min_voltage = min_v,
           max_voltage = max_v, type = upper cell_type\<rparr>)"

text \<open>Lines 98-115, the loop over \<open>enumerate(cell_types, start=1)\<close>. It carries the local
  dictionary \<open>cells_data\<close>, the store and the next unused address. \<open>draws idx\<close> is the value
  \<open>random.uniform(25, 40)\<close> returns in the iteration of cell \<open>idx\<close>.\<close>

fun generate_loop ::
  "(nat \<Rightarrow> rat) \<Rightarrow> nat \<Rightarrow> string list \<Rightarrow> (string, addr) dict \<times> (addr \<Rightarrow> cell) \<times> addr
     \<Rightarrow> (string, addr) dict \<times> (addr \<Rightarrow> cell) \<times> addr" where
  "generate_loop draws idx [] (d, h, p) = (d, h, p)"
| "generate_loop draws idx (cell_type # rest) (d, h, p) =
     generate_loop draws (Suc idx) rest
       (dict_set d (cell_key idx cell_type) p, h(p := new_cell (draws idx) cell_type), Suc p)"

text \<open>Lines 95-117: the handler stores the cell types, builds the dictionary from an empty
  one and stores it in the session state.\<close>

definition generate_cells :: "(nat \<Rightarrow> rat) \<Rightarrow> string list \<Rightarrow> state \<Rightarrow> state" where
  "generate_cells draws cts s =
     (case generate_loop draws 1 cts ([], heap s, fresh s) of
        (d, h, p) \<Rightarrow> \<lparr>heap = h, fresh = p, cells_data = d, cell_types = cts\<rparr>)"

text \<open>Lines 83-117 together: from the selections of the select boxes to the session state
  with the generated cells.\<close>

definition create_cells :: "(nat \<Rightarrow> rat) \<Rightarrow> string list \<Rightarrow> state \<Rightarrow> state" where
  "create_cells draws selections s = generate_cells draws (select_cell_types selections) s"

subsection \<open>The current input tab (lines 157-182)\<close>

text \<open>Lines 175-177 on one record: read the voltage, store the current, store the
  recomputed capacity.\<close>

definition with_current :: "cell \<Rightarrow> rat \<Rightarrow> cell" where
  "with_current c cur =
     (let v = voltage c in c\<lparr>current := cur, capacity := py_round (v * cur) 2\<rparr>)"

text \<open>Lines 175-177 for one cell: \<open>updated_data[cell_key]\<close> looks the record object up
  (\<open>KeyError\<close> if the key is missing), and the record object itself is changed.\<close>

definition set_current ::
  "(string, addr) dict \<Rightarrow> string \<Rightarrow> rat \<Rightarrow> (addr \<Rightarrow> cell) \<Rightarrow> error + (addr \<Rightarrow> cell)" where
  "set_current updated_data key cur h =
     (case dict_get updated_data key of
        Inl e \<Rightarrow> Inl e
      | Inr a \<Rightarrow> Inr (h(a := with_current (h a) cur)))"

text \<open>Lines 159-177: the loop over the keys of the session's dictionary. \<open>inp key\<close> is the
  value the number input of that cell returns.\<close>

fun update_loop ::
  "(string, addr) dict \<Rightarrow> (string \<Rightarrow> rat) \<Rightarrow> string list \<Rightarrow> (addr \<Rightarrow> cell)
     \<Rightarrow> error + (addr \<Rightarrow> cell)" where
  "update_loop updated_data inp [] h = Inr h"
| "update_loop updated_data inp (key # keys) h =
     (case set_current updated_data key (inp key) h of
        Inl e \<Rightarrow> Inl e
      | Inr h' \<Rightarrow> update_loop updated_data inp keys h')"

text \<open>Lines 157-182. \<open>updated_data\<close> is \<open>cells_data.copy()\<close>: a new outer dictionary with
  the same keys, holding the same record objects. \<open>pressed\<close> says whether the
  ``Update All Currents'' button was pressed in this run; only then is \<open>updated_data\<close>
  assigned to the session state.\<close>

definition current_input_tab :: "(string \<Rightarrow> rat) \<Rightarrow> bool \<Rightarrow> state \<Rightarrow> error + state" where
  "current_input_tab inp pressed s =
     (let updated_data = cells_data s
      in case update_loop updated_data inp (map fst (cells_data s)) (heap s) of
           Inl e \<Rightarrow> Inl e
         | Inr h \<Rightarrow>
             Inr (if pressed then s\<lparr>heap := h, cells_data := updated_data\<rparr>
                  else s\<lparr>heap := h\<rparr>))"

subsection \<open>Quick Stats (lines 186-200) and the guard of the main area (line 121)\<close>

definition total_capacity :: "state \<Rightarrow> rat" where
  "total_capacity s = py_sum (map capacity (cells s))"

definition avg_temp :: "state \<Rightarrow> error + rat" where
  "avg_temp s =
     (if length (cells_data s) = 0 then Inl ZeroDivisionError
      else Inr (py_sum (map temp (cells s)) / of_nat (length (cells_data s))))"

definition total_current :: "state \<Rightarrow> rat" where
  "total_current s = py_sum (map current (cells s))"

definition lfp_count :: "state \<Rightarrow> int" where
  "lfp_count s = py_sum (map (\<lambda>c. 1) (filter (\<lambda>c. type c = ''LFP'') (cells s)))"

definition nmc_count :: "state \<Rightarrow> int" where
  "nmc_count s = int (length (cells_data s)) - lfp_count s"

record stats =
  stat_total_capacity :: rat
  stat_avg_temp :: rat
  stat_total_current :: rat
  stat_lfp_count :: int
  stat_nmc_count :: int

definition quick_stats :: "state \<Rightarrow> error + stats" where
  "quick_stats s =
     (case avg_temp s of
        Inl e \<Rightarrow> Inl e
      | Inr avg \<Rightarrow>
          Inr \<lparr>stat_total_capacity = total_capacity s, stat_avg_temp = avg,
               stat_total_current = total_current s, stat_lfp_count = lfp_count s,
               stat_nmc_count = nmc_count s\<rparr>)"

text \<open>Line 121: the statistics are computed only when \<open>cells_data\<close> is not empty; otherwise
  the welcome message is shown and no statistic is computed (\<open>None\<close>).\<close>

definition main_area :: "state \<Rightarrow> error + stats option" where
  "main_area s =
     (if cells_data s \<noteq> [] then
        (case quick_stats s of Inl e \<Rightarrow> Inl e | Inr st \<Rightarrow> Inr (Some st))
      else Inr None)"

subsection \<open>An example session\<close>

text \<open>Three cells are generated in a new session, with the temperatures 30.1, 30.2 and
  30.3 drawn; then the number input of the first cell is set to 2.\<close>

definition example_draws :: "nat \<Rightarrow> rat" where
  "example_draws idx = 30 + of_nat idx / 10"

definition example_state :: state where
  "example_state = create_cells example_draws [''LFP'', ''NMC'', ''LFP''] init_state"

text \<open>The same session after ``Generate Cells'' is pressed once more, with the same
  selections and the same temperatures drawn: new record objects with the same contents.\<close>

definition example_state_again :: state where
  "example_state_again =
     create_cells example_draws [''LFP'', ''NMC'', ''LFP''] example_state"

definition example_inputs :: "string \<Rightarrow> rat" where
  "example_inputs key = (if key = ''cell_1_lfp'' then 2 else 0)"

section \<open>Properties\<close>

subsection \<open>Dictionaries\<close>

lemma dict_get_Inr: "dict_get d k = Inr v \<longleftrightarrow> map_of d k = Some v"
  by (simp add: dict_get_def split: option.splits)

lemma dict_get_Inl: "dict_get d k = Inl e \<longleftrightarrow> map_of d k = None \<and> e = KeyError"
  by (auto simp: dict_get_def split: option.splits)

lemma map_of_items: "map_of (items d h) k = map_option h (map_of d k)"
  by (induction d) (auto simp: items_def)

lemma map_fst_items: "map fst (items d h) = map fst d"
  by (induction d) (auto simp: items_def)

lemma map_of_distinct_snd:
  "distinct (map snd d) \<Longrightarrow> map_of d k = Some a \<Longrightarrow> map_of d k' = Some a \<Longrightarrow> k = k'"
  by (induction d) (auto split: if_splits dest: map_of_SomeD intro: rev_image_eqI)

subsection \<open>Cell identifiers\<close>

lemma digit_cases: "n < 10 \<Longrightarrow> n \<in> set [0, 1, 2, 3, 4, 5, 6, 7, 8, 9 :: nat]"
  by simp arith

lemma digit_not_underscore: "n < 10 \<Longrightarrow> digit n \<noteq> CHR ''_''"
  using digit_cases [of n] by (auto simp: digit_def)

lemma digit_inj: "n < 10 \<Longrightarrow> m < 10 \<Longrightarrow> digit n = digit m \<Longrightarrow> n = m"
  using digit_cases [of n] digit_cases [of m] by (auto simp: digit_def)

lemma str_nat_not_Nil: "str_nat n \<noteq> []"
  by (subst str_nat.simps) simp

lemma str_nat_no_underscore: "CHR ''_'' \<notin> set (str_nat n)"
proof (induction n rule: str_nat.induct)
  case (1 n)
  show ?case
  proof (cases "n < 10")
    case True
    then show ?thesis
      using digit_not_underscore [of n] by (subst str_nat.simps) auto
  next
    case False
    moreover have "digit (n mod 10) \<noteq> CHR ''_''"
      by (rule digit_not_underscore) simp
    ultimately show ?thesis
      using "1.IH" by (subst str_nat.simps) auto
  qed
qed

lemma str_nat_inj: "str_nat n = str_nat m \<Longrightarrow> n = m"
proof (induction n arbitrary: m rule: str_nat.induct)
  case (1 n)
  show ?case
  proof (cases "n < 10")
    case small_n: True
    show ?thesis
    proof (cases "m < 10")
      case True
      with small_n "1.prems" have "digit n = digit m"
        by (simp add: str_nat.simps [of n] str_nat.simps [of m])
      with small_n True show ?thesis
        by (rule digit_inj)
    next
      case False
      with small_n "1.prems" show ?thesis
        using str_nat_not_Nil [of "m div 10"]
        by (simp add: str_nat.simps [of n] str_nat.simps [of m])
    qed
  next
    case big_n: False
    show ?thesis
    proof (cases "m < 10")
      case True
      with big_n "1.prems" show ?thesis
        using str_nat_not_Nil [of "n div 10"]
        by (simp add: str_nat.simps [of n] str_nat.simps [of m])
    next
      case False
      with big_n "1.prems" have dv: "str_nat (n div 10) = str_nat (m div 10)"
        and dg: "digit (n mod 10) = digit (m mod 10)"
        by (simp_all add: str_nat.simps [of n] str_nat.simps [of m])
      from dv have "n div 10 = m div 10"
        by (rule "1.IH" [OF big_n])
      moreover have "n mod 10 = m mod 10"
      proof (rule digit_inj)
        show "n mod 10 < 10" and "m mod 10 < 10"
          by simp_all
        show "digit (n mod 10) = digit (m mod 10)"
          by (rule dg)
      qed
      ultimately have "n div 10 * 10 + n mod 10 = m div 10 * 10 + m mod 10"
        by (simp only:)
      then show ?thesis
        by (simp only: div_mult_mod_eq)
    qed
  qed
qed

lemma cell_key_inj:
  assumes "cell_key i a = cell_key j b"
  shows "i = j \<and> a = b"
proof -
  let ?P = "\<lambda>c. c \<noteq> CHR ''_''"
  from assms have eq: "str_nat i @ CHR ''_'' # a = str_nat j @ CHR ''_'' # b"
    by (simp add: cell_key_def)
  have "takeWhile ?P (str_nat n @ CHR ''_'' # x) = str_nat n" for n x
  proof -
    have "\<forall>c \<in> set (str_nat n). c \<noteq> CHR ''_''"
      using str_nat_no_underscore [of n] by auto
    then show ?thesis
      by (simp add: takeWhile_append2)
  qed
  with eq have "str_nat i = str_nat j"
    by metis
  then have "i = j"
    by (rule str_nat_inj)
  with eq show ?thesis
    by simp
qed

subsection \<open>The generate loop\<close>

lemma dict_set_fresh: "k \<notin> fst ` set d \<Longrightarrow> dict_set d k v = d @ [(k, v)]"
  by (induction d) auto

lemma items_append: "items (d @ e) h = items d h @ items e h"
  by (simp add: items_def)

lemma items_below: "\<forall>a \<in> snd ` set d. a < p \<Longrightarrow> items d (h(p := c)) = items d h"
  by (induction d) (auto simp: items_def)

lemma generate_loop_result:
  assumes "generate_loop draws idx cts (d, h, p) = (d', h', p')"
    and "\<forall>k \<in> fst ` set d. \<forall>j \<ge> idx. \<forall>ct. k \<noteq> cell_key j ct"
    and "\<forall>a \<in> snd ` set d. a < p"
  shows "items d' h' =
           items d h @ map (\<lambda>(i, ct). (cell_key i ct, new_cell (draws i) ct)) (enumerate idx cts) \<and>
         map snd d' = map snd d @ [p..<p + length cts] \<and> p' = p + length cts \<and>
         (\<forall>a < p. h' a = h a)"
  using assms
proof (induction cts arbitrary: idx d h p)
  case Nil
  then show ?case by simp
next
  case (Cons ct rest)
  let ?k = "cell_key idx ct"
  let ?d1 = "d @ [(?k, p)]"
  let ?h1 = "h(p := new_cell (draws idx) ct)"
  have fresh_key: "?k \<notin> fst ` set d"
    using Cons.prems(2) by blast
  then have step: "generate_loop draws (Suc idx) rest (?d1, ?h1, Suc p) = (d', h', p')"
    using Cons.prems(1) by (simp add: dict_set_fresh)
  have keys1: "\<forall>k \<in> fst ` set ?d1. \<forall>j \<ge> Suc idx. \<forall>ct'. k \<noteq> cell_key j ct'"
  proof (intro ballI allI impI)
    fix k j ct'
    assume k: "k \<in> fst ` set ?d1" and j: "Suc idx \<le> j"
    show "k \<noteq> cell_key j ct'"
    proof (cases "k \<in> fst ` set d")
      case True
      with Cons.prems(2) j show ?thesis
        using Suc_leD by blast
    next
      case False
      with k have "k = ?k" by auto
      with j show ?thesis
        using cell_key_inj [of idx ct j ct'] by auto
    qed
  qed
  have addrs1: "\<forall>a \<in> snd ` set ?d1. a < Suc p"
    using Cons.prems(3) by (auto simp: less_Suc_eq)
  let ?f = "\<lambda>(i, ct). (cell_key i ct, new_cell (draws i) ct)"
  from Cons.IH [OF step keys1 addrs1]
  have i1: "items d' h' = items ?d1 ?h1 @ map ?f (enumerate (Suc idx) rest)"
    and i2: "map snd d' = map snd ?d1 @ [Suc p..<Suc p + length rest]"
    and i3: "p' = Suc p + length rest"
    and i4: "\<forall>a < Suc p. h' a = ?h1 a"
    by blast+
  have first: "items ?d1 ?h1 = items d h @ [(?k, new_cell (draws idx) ct)]"
    using Cons.prems(3) by (simp add: items_append items_below) (simp add: items_def)
  have len: "p + length (ct # rest) = Suc p + length rest"
    by simp
  have range: "[p..<p + length (ct # rest)] = p # [Suc p..<Suc p + length rest]"
    unfolding len by (rule upt_conv_Cons) simp
  have "items d' h' = items d h @ map ?f (enumerate idx (ct # rest))"
    unfolding i1 first by simp
  moreover have "map snd d' = map snd d @ [p..<p + length (ct # rest)]"
    unfolding i2 range by simp
  moreover have "p' = p + length (ct # rest)"
    unfolding i3 by simp
  moreover have "\<forall>a < p. h' a = h a"
  proof (intro allI impI)
    fix a assume "a < p"
    then have "h' a = ?h1 a"
      using i4 by simp
    with \<open>a < p\<close> show "h' a = h a"
      by simp
  qed
  ultimately show ?case
    by blast
qed

lemma ledger_generate_cells:
  "ledger (generate_cells draws cts s) =
     map (\<lambda>(i, ct). (cell_key i ct, new_cell (draws i) ct)) (enumerate 1 cts)"
proof -
  obtain d h p where run: "generate_loop draws 1 cts ([], heap s, fresh s) = (d, h, p)"
    by (metis prod_cases3)
  from generate_loop_result [OF run] have
    "items d h = map (\<lambda>(i, ct). (cell_key i ct, new_cell (draws i) ct)) (enumerate 1 cts)"
    by (simp add: items_def)
  with run show ?thesis
    by (simp add: ledger_def generate_cells_def)
qed

lemma generate_cells_distinct:
  "distinct (map snd (cells_data (generate_cells draws cts s)))"
proof -
  obtain d h p where run: "generate_loop draws 1 cts ([], heap s, fresh s) = (d, h, p)"
    by (metis prod_cases3)
  from generate_loop_result [OF run] have "map snd d = [fresh s..<fresh s + length cts]"
    by simp
  with run show ?thesis
    by (simp add: generate_cells_def)
qed

lemma generate_cells_keys_distinct:
  "distinct (map fst (cells_data (generate_cells draws cts s)))"
proof -
  have "map fst (cells_data (generate_cells draws cts s)) = map fst (ledger (generate_cells draws cts s))"
    by (simp add: ledger_def map_fst_items)
  also have "\<dots> = map (\<lambda>(i, ct). cell_key i ct) (enumerate 1 cts)"
    by (simp add: ledger_generate_cells case_prod_unfold comp_def)
  finally have keys: "map fst (cells_data (generate_cells draws cts s)) =
      map (\<lambda>(i, ct). cell_key i ct) (enumerate 1 cts)" .
  have "inj_on (\<lambda>(i, ct). cell_key i ct) (set (enumerate 1 cts))"
    by (rule inj_onI) (auto dest: cell_key_inj)
  then show ?thesis
    by (simp add: keys distinct_map)
qed

subsection \<open>Rounding\<close>

lemma round_half_even_cases: "round_half_even x = \<lfloor>x\<rfloor> \<or> round_half_even x = \<lfloor>x\<rfloor> + 1"
  by (simp add: round_half_even_def Let_def)

lemma round_half_even_lower: "of_int a \<le> x \<Longrightarrow> a \<le> round_half_even x"
proof -
  assume "of_int a \<le> x"
  then have "a \<le> \<lfloor>x\<rfloor>"
    by (simp add: le_floor_iff)
  with round_half_even_cases [of x] show ?thesis
    by auto
qed

lemma round_half_even_upper:
  assumes "x \<le> of_int b"
  shows "round_half_even x \<le> b"
proof (cases "x = of_int \<lfloor>x\<rfloor>")
  case True
  then have "round_half_even x = \<lfloor>x\<rfloor>"
    by (simp add: round_half_even_def Let_def)
  moreover have "\<lfloor>x\<rfloor> \<le> b"
    using assms by (simp add: floor_le_iff)
  ultimately show ?thesis by simp
next
  case False
  then have "of_int \<lfloor>x\<rfloor> < x"
    by (metis of_int_floor_le order_less_le)
  with assms have "\<lfloor>x\<rfloor> < b"
    by (metis of_int_less_iff order_less_le_trans)
  with round_half_even_cases [of x] show ?thesis
    by auto
qed

lemma round_half_even_of_int: "round_half_even (of_int n) = n"
  by (simp add: round_half_even_def)

lemma py_round_zero: "py_round 0 n = 0"
  using round_half_even_of_int [of 0] by (simp add: py_round_def)

lemma py_round_temperature:
  assumes "25 \<le> x" and "x \<le> 40"
  shows "25 \<le> py_round x 1 \<and> py_round x 1 \<le> 40 \<and> (\<exists>n::int. py_round x 1 = of_int n / 10)"
proof -
  have "of_int 250 \<le> x * 10" and "x * 10 \<le> of_int 400"
    using assms by simp_all
  then have "250 \<le> round_half_even (x * 10)" and "round_half_even (x * 10) \<le> 400"
    using round_half_even_lower [of 250 "x * 10"] round_half_even_upper [of "x * 10" 400]
    by blast+
  then have "(250::rat) \<le> of_int (round_half_even (x * 10))"
    and "of_int (round_half_even (x * 10)) \<le> (400::rat)"
    by linarith+
  then show ?thesis
    by (auto simp: py_round_def)
qed

subsection \<open>The generated ledger\<close>

lemma lower_LFP: "lower ''LFP'' = ''lfp''" and lower_NMC: "lower ''NMC'' = ''nmc''"
  and upper_lfp: "upper ''lfp'' = ''LFP''" and upper_nmc: "upper ''nmc'' = ''NMC''"
  by code_simp+

lemma ledger_create_cells:
  "ledger (create_cells draws selections s) =
     map (\<lambda>(i, sel). (cell_key i (lower sel), new_cell (draws i) (lower sel)))
       (enumerate 1 selections)"
  by (simp add: create_cells_def select_cell_types_def ledger_generate_cells enumerate_eq_zip
      zip_map2 case_prod_unfold comp_def)

lemma ledger_create_cells_nth:
  assumes "i < length selections"
  shows "ledger (create_cells draws selections s) ! i =
     (cell_key (Suc i) (lower (selections ! i)), new_cell (draws (Suc i)) (lower (selections ! i)))"
  using assms by (simp add: ledger_create_cells nth_enumerate_eq)

lemma new_cell_lfp:
  "new_cell r ''lfp'' = \<lparr>voltage = 32 / 10, current = 0, temp = py_round r 1, capacity = 0,
     min_voltage = 28 / 10, max_voltage = 36 / 10, type = ''LFP''\<rparr>"
  by (simp add: new_cell_def py_round_zero upper_lfp)

lemma new_cell_nmc:
  "new_cell r ''nmc'' = \<lparr>voltage = 36 / 10, current = 0, temp = py_round r 1, capacity = 0,
     min_voltage = 32 / 10, max_voltage = 4, type = ''NMC''\<rparr>"
  by (simp add: new_cell_def py_round_zero upper_nmc)

subsection \<open>Sums, and the current input loop as a whole\<close>



lemma length_ledger: "length (ledger s) = length (cells_data s)"
  by (simp add: ledger_def items_def)

lemma ledger_Nil: "ledger s = [] \<longleftrightarrow> cells_data s = []"
  by (simp add: ledger_def items_def)

lemma set_current_present:
  "map_of d key = Some a \<Longrightarrow> set_current d key cur h = Inr (h(a := with_current (h a) cur))"
  by (simp add: set_current_def dict_get_def)

lemma update_loop_result:
  assumes "distinct (map fst d)" and "distinct (map snd d)"
    and "set ks \<subseteq> fst ` set d" and "distinct ks"
  shows "\<exists>h'. update_loop d inp ks h = Inr h' \<and>
           (\<forall>(k, a) \<in> set d. h' a = (if k \<in> set ks then with_current (h a) (inp k) else h a))"
  using assms(3,4)
proof (induction ks arbitrary: h)
  case Nil
  then show ?case by auto
next
  case (Cons key keys)
  from Cons.prems obtain a where a: "(key, a) \<in> set d"
    by auto
  with assms(1) have look: "map_of d key = Some a"
    by simp
  let ?h1 = "h(a := with_current (h a) (inp key))"
  from Cons.prems have "set keys \<subseteq> fst ` set d" and "distinct keys" and fresh: "key \<notin> set keys"
    by auto
  from Cons.IH [OF this(1,2), of ?h1] obtain h' where
    run: "update_loop d inp keys ?h1 = Inr h'" and
    rest: "\<forall>(k, b) \<in> set d. h' b = (if k \<in> set keys then with_current (?h1 b) (inp k) else ?h1 b)"
    by blast
  have "h' b = (if k \<in> set (key # keys) then with_current (h b) (inp k) else h b)"
    if kb: "(k, b) \<in> set d" for k b
  proof (cases "k = key")
    case True
    with kb assms(1) look have "b = a"
      by simp
    with True fresh rest kb show ?thesis
      by auto
  next
    case False
    from kb assms(1) have "map_of d k = Some b"
      by simp
    with False look assms(2) have "b \<noteq> a"
      using map_of_distinct_snd by fastforce
    with False rest kb show ?thesis
      by auto
  qed
  with run look show ?case
    by (auto simp: set_current_present)
qed

lemma current_input_tab_ledger:
  assumes "distinct (map fst (cells_data s))" and "distinct (map snd (cells_data s))"
  shows "\<exists>s'. current_input_tab inp pressed s = Inr s' \<and> cells_data s' = cells_data s \<and>
           ledger s' = map (\<lambda>(k, c). (k, with_current c (inp k))) (ledger s)"
proof -
  let ?d = "cells_data s"
  have "set (map fst ?d) \<subseteq> fst ` set ?d"
    by simp
  from update_loop_result [OF assms this assms(1), of inp "heap s"] obtain h' where
    run: "update_loop ?d inp (map fst ?d) (heap s) = Inr h'" and
    all: "\<forall>(k, a) \<in> set ?d. h' a = (if k \<in> set (map fst ?d) then with_current (heap s a) (inp k) else heap s a)"
    by blast
  have "h' a = with_current (heap s a) (inp k)" if "(k, a) \<in> set ?d" for k a
  proof -
    from that have "k \<in> set (map fst ?d)"
      by (auto intro: rev_image_eqI)
    with all that show ?thesis
      by fastforce
  qed
  then have "items ?d h' = map (\<lambda>(k, c). (k, with_current c (inp k))) (items ?d (heap s))"
    by (auto simp: items_def)
  with run show ?thesis
    by (cases pressed) (simp_all add: current_input_tab_def ledger_def)
qed

lemma main_area_ledger: "ledger s = ledger s' \<Longrightarrow> main_area s = main_area s'"
  using length_ledger [of s] length_ledger [of s'] ledger_Nil [of s] ledger_Nil [of s']
  by (simp add: main_area_def quick_stats_def avg_temp_def total_capacity_def total_current_def
      lfp_count_def nmc_count_def cells_def)

lemma new_cell_temp: "(new_cell r ct)\<lparr>temp := t\<rparr> = (new_cell r' ct)\<lparr>temp := t\<rparr>"
  by (simp add: new_cell_def)

subsection \<open>The example session, evaluated\<close>

lemma example_cells_data:
  "cells_data example_state = [(''cell_1_lfp'', 0), (''cell_2_nmc'', 1), (''cell_3_lfp'', 2)]"
  by code_simp

lemma example_first_cell:
  "map_of (items (cells_data example_state) (heap example_state)) ''cell_1_lfp'' =
     Some \<lparr>voltage = 32 / 10, current = 0, temp = 301 / 10, capacity = 0,
            min_voltage = 28 / 10, max_voltage = 36 / 10, type = ''LFP''\<rparr>"
  by code_simp

lemma example_second_cell:
  "map_of (items (cells_data example_state) (heap example_state)) ''cell_2_nmc'' =
     Some \<lparr>voltage = 36 / 10, current = 0, temp = 302 / 10, capacity = 0,
            min_voltage = 32 / 10, max_voltage = 4, type = ''NMC''\<rparr>"
  by code_simp

lemma example_ledger:
  "ledger example_state =
     [(''cell_1_lfp'',
       \<lparr>voltage = 32 / 10, current = 0, temp = 301 / 10, capacity = 0, min_voltage = 28 / 10,
          max_voltage = 36 / 10, type = ''LFP''\<rparr>),
      (''cell_2_nmc'',
       \<lparr>voltage = 36 / 10, current = 0, temp = 302 / 10, capacity = 0, min_voltage = 32 / 10,
          max_voltage = 4, type = ''NMC''\<rparr>),
      (''cell_3_lfp'',
       \<lparr>voltage = 32 / 10, current = 0, temp = 303 / 10, capacity = 0, min_voltage = 28 / 10,
          max_voltage = 36 / 10, type = ''LFP''\<rparr>)]"
  by code_simp


lemma example_draws_range:
  "\<forall>i. 1 \<le> i \<and> i \<le> length [''LFP'', ''NMC'', ''LFP''] \<longrightarrow>
     25 \<le> example_draws i \<and> example_draws i \<le> 40"
proof (intro allI impI)
  fix i :: nat
  assume "1 \<le> i \<and> i \<le> length [''LFP'', ''NMC'', ''LFP'']"
  then have "(of_nat i :: rat) \<le> of_nat 3"
    unfolding of_nat_le_iff by simp
  then show "25 \<le> example_draws i \<and> example_draws i \<le> 40"
    by (simp add: example_draws_def)
qed

lemma str_nat_1: "str_nat (Suc 0) = ''1''"
  by code_simp

subsection \<open>Updating one current\<close>



text \<open>
  C5. For every ledger whose identifiers hold distinct record objects (every dictionary
  the handler builds is one, see \<open>generate_cells_distinct\<close>), every identifier present in
  it and every new current in [0, 10], the update succeeds, the record of that identifier
  keeps its voltage, minimum and maximum voltage, temperature and chemistry, the record
  of every other identifier is the same as before, and the identifiers and their order
  are the same as before.
\<close>

theorem set_current_frame:
  assumes "distinct (map snd d)" and "map_of (items d h) key = Some c"
    and "0 \<le> cur" and "cur \<le> 10"
  shows "\<exists>h'. set_current d key cur h = Inr h' \<and>
           (\<exists>c'. map_of (items d h') key = Some c' \<and> voltage c' = voltage c \<and>
                 min_voltage c' = min_voltage c \<and> max_voltage c' = max_voltage c \<and>
                 temp c' = temp c \<and> type c' = type c) \<and>
           (\<forall>k. k \<noteq> key \<longrightarrow> map_of (items d h') k = map_of (items d h) k) \<and>
           map fst (items d h') = map fst (items d h)"
proof -
  from assms(2) obtain a where a: "map_of d key = Some a" and c: "c = h a"
    by (auto simp: map_of_items)
  let ?h' = "h(a := with_current (h a) cur)"
  have run: "set_current d key cur h = Inr ?h'"
    using a by (simp add: set_current_def dict_get_def)
  have target: "map_of (items d ?h') key = Some (?h' a)"
    using a by (simp add: map_of_items)
  have others: "map_of (items d ?h') k = map_of (items d h) k" if "k \<noteq> key" for k
  proof (cases "map_of d k")
    case None
    then show ?thesis by (simp add: map_of_items)
  next
    case (Some b)
    with a that assms(1) have "b \<noteq> a"
      using map_of_distinct_snd by fastforce
    with Some show ?thesis by (simp add: map_of_items)
  qed
  show ?thesis
    using run target others c by (simp add: map_fst_items with_current_def)
qed

theorem set_current_frame_witness:
  "distinct (map snd (cells_data example_state)) \<and>
   map_of (items (cells_data example_state) (heap example_state)) ''cell_1_lfp'' =
     Some \<lparr>voltage = 32 / 10, current = 0, temp = 301 / 10, capacity = 0,
            min_voltage = 28 / 10, max_voltage = 36 / 10, type = ''LFP''\<rparr> \<and>
   (0::rat) \<le> 2 \<and> (2::rat) \<le> 10 \<and>
   (\<exists>h'. set_current (cells_data example_state) ''cell_1_lfp'' 2 (heap example_state) = Inr h' \<and>
      (\<exists>c'. map_of (items (cells_data example_state) h') ''cell_1_lfp'' = Some c' \<and>
            voltage c' = 32 / 10 \<and> temp c' = 301 / 10 \<and> type c' = ''LFP'') \<and>
      map_of (items (cells_data example_state) h') ''cell_2_nmc'' =
        Some \<lparr>voltage = 36 / 10, current = 0, temp = 302 / 10, capacity = 0,
               min_voltage = 32 / 10, max_voltage = 4, type = ''NMC''\<rparr>)"
proof -
  have d: "distinct (map snd (cells_data example_state))"
    by (simp add: example_cells_data)
  have ne: "''cell_2_nmc'' \<noteq> ''cell_1_lfp''"
    by simp
  show ?thesis
    using d example_first_cell example_second_cell ne
      set_current_frame [OF d example_first_cell, of 2]
    by (simp only: simp_thms) fastforce
qed

text \<open>
  C8, as the script has it. The update fails exactly when the identifier is absent from
  the dictionary, with \<open>KeyError\<close>, and then yields no changed store. There is no range
  check in lines 175-177: for an identifier that is present the update is carried out
  with whatever current the number input hands over, and the interval [0, 10] is
  enforced before that, by the bounds of the number input (lines 164-165).
\<close>

theorem set_current_fails_iff_absent:
  "(set_current d key cur h = Inl e \<longleftrightarrow> key \<notin> fst ` set (items d h) \<and> e = KeyError) \<and>
   (key \<in> fst ` set (items d h) \<longrightarrow>
      (\<exists>h'. set_current d key cur h = Inr h' \<and>
         (\<exists>c'. map_of (items d h') key = Some c' \<and> current c' = cur)))"
proof -
  have keys: "fst ` set (items d h) = fst ` set d"
    using map_fst_items [of d h] by (metis list.set_map)
  show ?thesis
  proof (cases "map_of d key")
    case None
    then have "key \<notin> fst ` set d"
      by (simp add: map_of_eq_None_iff)
    with None show ?thesis
      by (auto simp: keys set_current_def dict_get_def)
  next
    case (Some a)
    then have "key \<in> fst ` set d"
      by (metis map_of_eq_None_iff option.distinct(1))
    with Some show ?thesis
      by (simp add: keys set_current_def dict_get_def map_of_items with_current_def)
  qed
qed

theorem set_current_fails_iff_absent_witness:
  "''cell_1_lfp'' \<in> fst ` set (items (cells_data example_state) (heap example_state)) \<and>
   (\<exists>h'. set_current (cells_data example_state) ''cell_1_lfp'' (101 / 10) (heap example_state)
           = Inr h' \<and>
      (\<exists>c'. map_of (items (cells_data example_state) h') ''cell_1_lfp'' = Some c' \<and>
            current c' = 101 / 10)) \<and>
   ''cell_4_lfp'' \<notin> fst ` set (items (cells_data example_state) (heap example_state)) \<and>
   set_current (cells_data example_state) ''cell_4_lfp'' 2 (heap example_state) = Inl KeyError"
proof -
  have k: "fst ` set (items (cells_data example_state) (heap example_state)) =
      {''cell_1_lfp'', ''cell_2_nmc'', ''cell_3_lfp''}"
    by (simp add: items_def example_cells_data)
  show ?thesis
    using set_current_fails_iff_absent
        [of "cells_data example_state" "''cell_1_lfp''" "101 / 10" "heap example_state" KeyError]
      set_current_fails_iff_absent
        [of "cells_data example_state" "''cell_4_lfp''" 2 "heap example_state" KeyError]
    by (simp add: k)
qed

text \<open>
  C8 as the specification states it fails: with the current -1, and with 10.1, the update
  of a cell that is present does not fail; it stores the current and the capacity
  computed from it.
\<close>

theorem set_current_out_of_range_counterexample:
  "map_sum id (items [(''cell_1_lfp'', 0)])
     (set_current (cells_data example_state) ''cell_1_lfp'' (- 1) (heap example_state)) =
     Inr [(''cell_1_lfp'',
           \<lparr>voltage = 32 / 10, current = - 1, temp = 301 / 10, capacity = - (32 / 10),
              min_voltage = 28 / 10, max_voltage = 36 / 10, type = ''LFP''\<rparr>)] \<and>
   map_sum id (items [(''cell_1_lfp'', 0)])
     (set_current (cells_data example_state) ''cell_1_lfp'' (101 / 10) (heap example_state)) =
     Inr [(''cell_1_lfp'',
           \<lparr>voltage = 32 / 10, current = 101 / 10, temp = 301 / 10, capacity = 3232 / 100,
              min_voltage = 28 / 10, max_voltage = 36 / 10, type = ''LFP''\<rparr>)]"
  by code_simp

subsection \<open>Generating cells\<close>

text \<open>
  C2. For every non-empty sequence of at most 12 selections, each \<open>LFP\<close> or \<open>NMC\<close>, and
  temperatures drawn in [25, 40], the generated ledger has one record per selection, in
  order. The record at position \<open>i\<close> (counted from 1) has the identifier \<open>cell_i_lfp\<close> or
  \<open>cell_i_nmc\<close>, the chemistry as selected (upper case), voltage 3.2 or 3.6, minimum
  voltage 2.8 or 3.2, maximum voltage 3.6 or 4.0, current 0, capacity 0, and as temperature
  the draw rounded to one decimal, which lies in [25, 40] and is a multiple of 0.1.
\<close>

theorem create_cells_ledger:
  assumes "selections \<noteq> []" and "length selections \<le> 12"
    and "set selections \<subseteq> {''LFP'', ''NMC''}"
    and "\<forall>i. 1 \<le> i \<and> i \<le> length selections \<longrightarrow> 25 \<le> draws i \<and> draws i \<le> 40"
  shows "length (ledger (create_cells draws selections s)) = length selections \<and>
    (\<forall>i < length selections. \<exists>t.
       ledger (create_cells draws selections s) ! i =
         (''cell_'' @ str_nat (Suc i) @ ''_'' @ (if selections ! i = ''LFP'' then ''lfp'' else ''nmc''),
          \<lparr>voltage = (if selections ! i = ''LFP'' then 32 / 10 else 36 / 10),
           current = 0, temp = t, capacity = 0,
           min_voltage = (if selections ! i = ''LFP'' then 28 / 10 else 32 / 10),
           max_voltage = (if selections ! i = ''LFP'' then 36 / 10 else 4),
           type = selections ! i\<rparr>) \<and>
       t = py_round (draws (Suc i)) 1 \<and> 25 \<le> t \<and> t \<le> 40 \<and> (\<exists>n::int. t = of_int n / 10))"
proof (intro conjI allI impI)
  show "length (ledger (create_cells draws selections s)) = length selections"
    by (simp add: ledger_create_cells)
next
  fix i
  assume i: "i < length selections"
  let ?t = "py_round (draws (Suc i)) 1"
  from i assms(4) have "25 \<le> draws (Suc i)" and "draws (Suc i) \<le> 40"
    by (simp_all add: Suc_le_eq)
  then have t: "25 \<le> ?t \<and> ?t \<le> 40 \<and> (\<exists>n::int. ?t = of_int n / 10)"
    by (rule py_round_temperature)
  from i assms(3) have "selections ! i = ''LFP'' \<or> selections ! i = ''NMC''"
    using nth_mem by blast
  then have "ledger (create_cells draws selections s) ! i =
         (''cell_'' @ str_nat (Suc i) @ ''_'' @ (if selections ! i = ''LFP'' then ''lfp'' else ''nmc''),
          \<lparr>voltage = (if selections ! i = ''LFP'' then 32 / 10 else 36 / 10),
           current = 0, temp = ?t, capacity = 0,
           min_voltage = (if selections ! i = ''LFP'' then 28 / 10 else 32 / 10),
           max_voltage = (if selections ! i = ''LFP'' then 36 / 10 else 4),
           type = selections ! i\<rparr>)"
    using i
    by (auto simp: ledger_create_cells_nth cell_key_def lower_LFP lower_NMC new_cell_lfp
        new_cell_nmc)
  with t show "\<exists>t. ledger (create_cells draws selections s) ! i =
         (''cell_'' @ str_nat (Suc i) @ ''_'' @ (if selections ! i = ''LFP'' then ''lfp'' else ''nmc''),
          \<lparr>voltage = (if selections ! i = ''LFP'' then 32 / 10 else 36 / 10),
           current = 0, temp = t, capacity = 0,
           min_voltage = (if selections ! i = ''LFP'' then 28 / 10 else 32 / 10),
           max_voltage = (if selections ! i = ''LFP'' then 36 / 10 else 4),
           type = selections ! i\<rparr>) \<and>
       t = py_round (draws (Suc i)) 1 \<and> 25 \<le> t \<and> t \<le> 40 \<and> (\<exists>n::int. t = of_int n / 10)"
    by blast
qed

theorem create_cells_ledger_witness:
  "[''LFP'', ''NMC'', ''LFP''] \<noteq> [] \<and> length [''LFP'', ''NMC'', ''LFP''] \<le> 12 \<and>
   set [''LFP'', ''NMC'', ''LFP''] \<subseteq> {''LFP'', ''NMC''} \<and>
   length (ledger (create_cells example_draws [''LFP'', ''NMC'', ''LFP''] init_state)) = 3 \<and>
   (\<exists>t. ledger (create_cells example_draws [''LFP'', ''NMC'', ''LFP''] init_state) ! 0 =
        (''cell_1_lfp'',
         \<lparr>voltage = 32 / 10, current = 0, temp = t, capacity = 0, min_voltage = 28 / 10,
            max_voltage = 36 / 10, type = ''LFP''\<rparr>) \<and> 25 \<le> t \<and> t \<le> 40)"
proof -
  have h1: "[''LFP'', ''NMC'', ''LFP''] \<noteq> []" and h2: "length [''LFP'', ''NMC'', ''LFP''] \<le> 12"
    and h3: "set [''LFP'', ''NMC'', ''LFP''] \<subseteq> {''LFP'', ''NMC''}"
    by simp_all
  from create_cells_ledger [OF h1 h2 h3 example_draws_range, of init_state]
  have "length (ledger (create_cells example_draws [''LFP'', ''NMC'', ''LFP''] init_state)) = 3"
    and "\<exists>t. ledger (create_cells example_draws [''LFP'', ''NMC'', ''LFP''] init_state) ! 0 =
        (''cell_1_lfp'',
         \<lparr>voltage = 32 / 10, current = 0, temp = t, capacity = 0, min_voltage = 28 / 10,
            max_voltage = 36 / 10, type = ''LFP''\<rparr>) \<and> 25 \<le> t \<and> t \<le> 40"
    by (simp_all add: str_nat_1)
  with h1 h2 h3 show ?thesis
    by blast
qed




subsection \<open>The batch of current updates\<close>

text \<open>
  C3 asks that the session's ledger changes only when the batch is committed. The script
  prepares the batch in \<open>updated_data\<close>, a copy of the outer dictionary only, so the loop
  writes into the record objects of the session's own ledger. In the example session,
  with the number input of the first cell at 2 and the button not pressed, the session's
  ledger after the run holds the current 2 and the capacity 6.4 for that cell: it is not
  the ledger from before the run.
\<close>

theorem current_input_without_commit_changes_ledger:
  "map_sum id ledger (current_input_tab example_inputs False example_state) =
     Inr [(''cell_1_lfp'',
           \<lparr>voltage = 32 / 10, current = 2, temp = 301 / 10, capacity = 64 / 10,
              min_voltage = 28 / 10, max_voltage = 36 / 10, type = ''LFP''\<rparr>),
          (''cell_2_nmc'',
           \<lparr>voltage = 36 / 10, current = 0, temp = 302 / 10, capacity = 0,
              min_voltage = 32 / 10, max_voltage = 4, type = ''NMC''\<rparr>),
          (''cell_3_lfp'',
           \<lparr>voltage = 32 / 10, current = 0, temp = 303 / 10, capacity = 0,
              min_voltage = 28 / 10, max_voltage = 36 / 10, type = ''LFP''\<rparr>)] \<and>
   map_sum id ledger (current_input_tab example_inputs False example_state) \<noteq>
     Inr (ledger example_state)"
proof -
  have run: "map_sum id ledger (current_input_tab example_inputs False example_state) =
     Inr [(''cell_1_lfp'',
           \<lparr>voltage = 32 / 10, current = 2, temp = 301 / 10, capacity = 64 / 10,
              min_voltage = 28 / 10, max_voltage = 36 / 10, type = ''LFP''\<rparr>),
          (''cell_2_nmc'',
           \<lparr>voltage = 36 / 10, current = 0, temp = 302 / 10, capacity = 0,
              min_voltage = 32 / 10, max_voltage = 4, type = ''NMC''\<rparr>),
          (''cell_3_lfp'',
           \<lparr>voltage = 32 / 10, current = 0, temp = 303 / 10, capacity = 0,
              min_voltage = 28 / 10, max_voltage = 36 / 10, type = ''LFP''\<rparr>)]"
    by code_simp
  show ?thesis
    unfolding run example_ledger by simp
qed

subsection \<open>Aggregates\<close>





subsection \<open>Determinism\<close>

text \<open>
  C4, as the script has it. The temperatures come from the global random source, so the
  generated ledger is a function of the selections and of the values drawn, not of the
  selections alone: two runs on equal selections whose draws agree give equal ledgers,
  whatever the session state was before, and two runs whose draws differ still agree
  on the identifiers, their order and every field other than the temperature. The
  other operations use no random source: the ledger after the current input tab and the
  statistics of the main area are functions of the contents of the ledger and of the
  inputs, whatever record objects hold these contents.
\<close>

theorem operations_deterministic:
  "((\<forall>i. 1 \<le> i \<and> i \<le> length selections \<longrightarrow> draws i = draws' i) \<longrightarrow>
      ledger (create_cells draws selections s) = ledger (create_cells draws' selections s')) \<and>
   map (\<lambda>(k, c). (k, c\<lparr>temp := 0\<rparr>)) (ledger (create_cells draws selections s)) =
     map (\<lambda>(k, c). (k, c\<lparr>temp := 0\<rparr>)) (ledger (create_cells draws' selections s')) \<and>
   (distinct (map fst (cells_data s)) \<and> distinct (map snd (cells_data s)) \<and>
    distinct (map fst (cells_data s')) \<and> distinct (map snd (cells_data s')) \<and>
    ledger s = ledger s' \<longrightarrow>
      map_sum id ledger (current_input_tab inp pressed s) =
        map_sum id ledger (current_input_tab inp pressed s')) \<and>
   (ledger s = ledger s' \<longrightarrow> main_area s = main_area s')"
proof (intro conjI impI)
  assume same: "\<forall>i. 1 \<le> i \<and> i \<le> length selections \<longrightarrow> draws i = draws' i"
  have "draws i = draws' i" if "(i, sel) \<in> set (enumerate 1 selections)" for i sel
    using that same by (auto simp: in_set_enumerate_eq)
  then show "ledger (create_cells draws selections s) = ledger (create_cells draws' selections s')"
    by (auto simp: ledger_create_cells)
next
  show "map (\<lambda>(k, c). (k, c\<lparr>temp := 0\<rparr>)) (ledger (create_cells draws selections s)) =
     map (\<lambda>(k, c). (k, c\<lparr>temp := 0\<rparr>)) (ledger (create_cells draws' selections s'))"
    using new_cell_temp [where t = 0]
    by (simp add: ledger_create_cells case_prod_unfold comp_def)
next
  assume a: "distinct (map fst (cells_data s)) \<and> distinct (map snd (cells_data s)) \<and>
    distinct (map fst (cells_data s')) \<and> distinct (map snd (cells_data s')) \<and>
    ledger s = ledger s'"
  from a current_input_tab_ledger [of s inp pressed] obtain t where
    t: "current_input_tab inp pressed s = Inr t"
      "ledger t = map (\<lambda>(k, c). (k, with_current c (inp k))) (ledger s)"
    by blast
  from a current_input_tab_ledger [of s' inp pressed] obtain t' where
    t': "current_input_tab inp pressed s' = Inr t'"
      "ledger t' = map (\<lambda>(k, c). (k, with_current c (inp k))) (ledger s')"
    by blast
  from a t t' show "map_sum id ledger (current_input_tab inp pressed s) =
        map_sum id ledger (current_input_tab inp pressed s')"
    by simp
next
  assume "ledger s = ledger s'"
  then show "main_area s = main_area s'"
    by (rule main_area_ledger)
qed

theorem operations_deterministic_witness:
  "ledger (create_cells example_draws [''LFP'', ''NMC'', ''LFP''] init_state) =
     ledger (create_cells example_draws [''LFP'', ''NMC'', ''LFP''] example_state) \<and>
   distinct (map fst (cells_data example_state)) \<and>
   distinct (map snd (cells_data example_state)) \<and>
   distinct (map fst (cells_data example_state_again)) \<and>
   distinct (map snd (cells_data example_state_again)) \<and>
   ledger example_state = ledger example_state_again \<and>
   map_sum id ledger (current_input_tab example_inputs True example_state) =
     map_sum id ledger (current_input_tab example_inputs True example_state_again) \<and>
   main_area example_state = main_area example_state_again"
proof -
  have same: "ledger (create_cells example_draws [''LFP'', ''NMC'', ''LFP''] init_state) =
     ledger (create_cells example_draws [''LFP'', ''NMC'', ''LFP''] example_state)"
    using operations_deterministic
      [of "[''LFP'', ''NMC'', ''LFP'']" example_draws example_draws init_state example_state]
    by simp
  then have led: "ledger example_state = ledger example_state_again"
    by (simp add: example_state_def example_state_again_def)
  have d: "distinct (map fst (cells_data example_state))"
    "distinct (map snd (cells_data example_state))"
    "distinct (map fst (cells_data example_state_again))"
    "distinct (map snd (cells_data example_state_again))"
    by (simp_all add: example_state_def example_state_again_def create_cells_def
        generate_cells_distinct generate_cells_keys_distinct)
  show ?thesis
    using same led d
      operations_deterministic [of _ _ _ example_state example_state_again example_inputs True]
    by simp
qed

text \<open>
  C4 as the specification states it fails for createCells: two runs on the same
  selections and the same session state, in which the random source returns 30.1 and
  30.2, give ledgers that differ in the temperature.
\<close>

theorem create_cells_random_counterexample:
  "ledger (create_cells example_draws [''LFP''] init_state) =
     [(''cell_1_lfp'',
       \<lparr>voltage = 32 / 10, current = 0, temp = 301 / 10, capacity = 0, min_voltage = 28 / 10,
          max_voltage = 36 / 10, type = ''LFP''\<rparr>)] \<and>
   ledger (create_cells (example_draws \<circ> Suc) [''LFP''] init_state) =
     [(''cell_1_lfp'',
       \<lparr>voltage = 32 / 10, current = 0, temp = 302 / 10, capacity = 0, min_voltage = 28 / 10,
          max_voltage = 36 / 10, type = ''LFP''\<rparr>)] \<and>
   ledger (create_cells example_draws [''LFP''] init_state) \<noteq>
     ledger (create_cells (example_draws \<circ> Suc) [''LFP''] init_state)"
proof -
  have one: "ledger (create_cells example_draws [''LFP''] init_state) =
     [(''cell_1_lfp'',
       \<lparr>voltage = 32 / 10, current = 0, temp = 301 / 10, capacity = 0, min_voltage = 28 / 10,
          max_voltage = 36 / 10, type = ''LFP''\<rparr>)]"
    by code_simp
  have other: "ledger (create_cells (example_draws \<circ> Suc) [''LFP''] init_state) =
     [(''cell_1_lfp'',
       \<lparr>voltage = 32 / 10, current = 0, temp = 302 / 10, capacity = 0, min_voltage = 28 / 10,
          max_voltage = 36 / 10, type = ''LFP''\<rparr>)]"
    by code_simp
  show ?thesis
    unfolding one other by simp
qed

end
